theory Spec2Isabelle
  imports Main
begin

section \<open>JavaScript values and components\<close>

text \<open>
  The run-time values that the type guards of \<^verbatim>\<open>ComposableController.ts\<close> inspect.
  Objects are association lists of properties; a function value is known by its identity
  only. Numbers occur only as opaque data inside states and are restricted to integers.
\<close>

datatype jsval =
    JUndefined
  | JNull
  | JBool bool
  | JNum int
  | JStr string
  | JObj "(string \<times> jsval) list"
  | JFun nat

text \<open>The \<^verbatim>\<open>typeof\<close> operator; \<^verbatim>\<open>typeof null\<close> is \<^verbatim>\<open>'object'\<close>.\<close>

fun typeof :: "jsval \<Rightarrow> string" where
  "typeof JUndefined = ''undefined''"
| "typeof JNull = ''object''"
| "typeof (JBool b) = ''boolean''"
| "typeof (JNum n) = ''number''"
| "typeof (JStr s) = ''string''"
| "typeof (JObj ps) = ''object''"
| "typeof (JFun f) = ''function''"

text \<open>
  What \<^verbatim>\<open>instanceof BaseController\<close> and \<^verbatim>\<open>instanceof BaseControllerV1\<close> can tell about a
  component: the two classes are unrelated, so the prototype chain of an object holds at
  most one of them.
\<close>

datatype klass = ExtendsBaseController | ExtendsBaseControllerV1 | OtherClass

text \<open>
  A \<^verbatim>\<open>WalletComponentInstance\<close>. Every variant of that union type declares
  \<^verbatim>\<open>name: string\<close>, so the name is a string field; every other property may be absent
  (\<open>None\<close>, the \<^verbatim>\<open>in\<close> operator answers false) or hold any value. \<open>ref\<close> is the identity of
  the object, \<open>cls\<close> its class.
\<close>

record component =
  ref :: nat
  cls :: klass
  name :: string
  config :: "jsval option"
  defaultConfig :: "jsval option"
  state :: "jsval option"
  defaultState :: "jsval option"
  disabled :: "jsval option"
  subscribe :: "jsval option"
  metadata :: "jsval option"
  messagingSystem :: "jsval option"

text \<open>The \<^verbatim>\<open>in\<close> operator and a property read (an absent property reads \<^verbatim>\<open>undefined\<close>).\<close>

definition has :: "jsval option \<Rightarrow> bool" where
  "has p = (p \<noteq> None)"

definition get :: "jsval option \<Rightarrow> jsval" where
  "get p = (case p of None \<Rightarrow> JUndefined | Some v \<Rightarrow> v)"

section \<open>The type guards\<close>

text \<open>
  The three guards, conjunct by conjunct. The tests \<^verbatim>\<open>'name' in c\<close> and
  \<^verbatim>\<open>typeof c.name === 'string'\<close> hold of every component by its type, so they do not
  appear; the \<^verbatim>\<open>instanceof\<close> tests read \<open>cls\<close>.
\<close>

definition controllerName :: string where
  "controllerName = ''ComposableController''"

definition isMessengerConsumer :: "component \<Rightarrow> bool" where
  "isMessengerConsumer component = has (messagingSystem component)"

definition isBaseControllerV1 :: "component \<Rightarrow> bool" where
  "isBaseControllerV1 controller =
     (has (config controller) \<and>
      typeof (get (config controller)) = ''object'' \<and>
      has (defaultConfig controller) \<and>
      typeof (get (defaultConfig controller)) = ''object'' \<and>
      has (state controller) \<and>
      typeof (get (state controller)) = ''object'' \<and>
      has (defaultState controller) \<and>
      typeof (get (defaultState controller)) = ''object'' \<and>
      has (disabled controller) \<and>
      typeof (get (disabled controller)) = ''boolean'' \<and>
      has (subscribe controller) \<and>
      typeof (get (subscribe controller)) = ''function'' \<and>
      cls controller = ExtendsBaseControllerV1)"

definition isBaseController :: "component \<Rightarrow> bool" where
  "isBaseController controller =
     (has (state controller) \<and>
      typeof (get (state controller)) = ''object'' \<and>
      has (metadata controller) \<and>
      typeof (get (metadata controller)) = ''object'' \<and>
      cls controller = ExtendsBaseController)"

section \<open>The composable controller\<close>

text \<open>
  The two \<^verbatim>\<open>throw new Error(...)\<close> sites of the class. The first is the configuration
  error of a missing messenger, the second the validation error of a component that
  matches no recognised contract.
\<close>

datatype error = Error string

abbreviation ConfigurationError :: error where
  "ConfigurationError \<equiv> Error ''Messaging system is required''"

abbreviation ValidationError :: error where
  "ValidationError \<equiv> Error ''Invalid component: component must be a MessengerConsumer or a controller inheriting from BaseControllerV1.''"

text \<open>
  The listener closure built in \<^verbatim>\<open>#updateChildController\<close>. Both branches build the same
  closure, which captures the component's \<^verbatim>\<open>name\<close>.
\<close>

datatype handler = ReplaceSlice string

text \<open>
  What the controller does to its collaborators, in order: a messenger is known by its
  identity, a child component by its \<open>ref\<close>.
\<close>

type_synonym messenger = nat

type_synonym slices = "string \<rightharpoonup> jsval"

datatype effect =
    RegisterController messenger string
  | BusSubscribe messenger string handler
  | ChildSubscribe nat handler
  | BusPublish messenger string slices

type_synonym trace = "effect list"

record composable_controller =
  this_name :: string
  this_messagingSystem :: messenger
  this_state :: slices
  this_metadata :: slices

text \<open>
  Modelled from the spec: the constructor of \<^verbatim>\<open>BaseController\<close>, of the package
  \<^verbatim>\<open>@metamask/base-controller\<close>. It stores name, metadata, state and messenger, and
  registers the composite as its own state under the supplied messenger.
\<close>

definition BaseController_init ::
  "string \<Rightarrow> slices \<Rightarrow> slices \<Rightarrow> messenger \<Rightarrow> trace \<Rightarrow> composable_controller \<times> trace" where
  "BaseController_init nm md st m t =
     (\<lparr>this_name = nm, this_messagingSystem = m, this_state = st, this_metadata = md\<rparr>,
      t @ [RegisterController m nm])"

text \<open>
  What a listener can throw: the error with which the draft of the state refuses a
  change of its prototype.
\<close>

datatype thrown = DraftPrototypeChange

text \<open>
  \<^verbatim>\<open>Object.assign(state, { [name]: childState })\<close>, on the draft of the state that
  \<^verbatim>\<open>update\<close> hands to its recipe. \<^verbatim>\<open>Object.assign\<close> writes by ordinary assignment. Under
  every key but \<^verbatim>\<open>__proto__\<close> the assignment sets the entry. The key \<^verbatim>\<open>__proto__\<close>
  reaches the accessor that every object inherits from \<^verbatim>\<open>Object.prototype\<close>: given an
  object, \<^verbatim>\<open>null\<close> or a function it asks the target to change its prototype, which a draft
  refuses by throwing; given any other value it does nothing. No entry is written either
  way.
\<close>

definition Object_assign :: "slices \<Rightarrow> string \<Rightarrow> jsval \<Rightarrow> thrown + slices" where
  "Object_assign draft nm childState =
     (if nm = ''__proto__''
      then (if typeof childState = ''object'' \<or> typeof childState = ''function''
            then Inl DraftPrototypeChange
            else Inr draft)
      else Inr (draft(nm \<mapsto> childState)))"

text \<open>
  Modelled from the spec: \<^verbatim>\<open>BaseController.update\<close>, of the same package. It applies
  the recipe to the state and publishes one change notification carrying the new state
  under the controller's own topic. An error thrown by the recipe is not caught: it
  leaves the state as it was and nothing is published.
\<close>

definition update ::
  "(slices \<Rightarrow> thrown + slices) \<Rightarrow> composable_controller \<Rightarrow> trace \<Rightarrow>
     thrown option \<times> composable_controller \<times> trace" where
  "update recipe self t =
     (case recipe (this_state self) of
        Inl e \<Rightarrow> (Some e, self, t)
      | Inr next \<Rightarrow>
          (None, self\<lparr>this_state := next\<rparr>,
           t @ [BusPublish (this_messagingSystem self) (this_name self @ '':stateChange'')
                  next]))"

text \<open>
  Running a listener: \<^verbatim>\<open>this.update((state) => { Object.assign(state, { [name]: childState }) })\<close>.
  \<open>Some e\<close> is the error that reaches whoever delivered the notification.
\<close>

fun invoke ::
  "handler \<Rightarrow> jsval \<Rightarrow> composable_controller \<Rightarrow> trace \<Rightarrow>
     thrown option \<times> composable_controller \<times> trace" where
  "invoke (ReplaceSlice nm) childState self t =
     update (\<lambda>state. Object_assign state nm childState) self t"

text \<open>The default descriptor of the metadata reducer.\<close>

definition default_descriptor :: jsval where
  "default_descriptor = JObj [(''persist'', JBool True), (''anonymous'', JBool True)]"

text \<open>The two reducers of the constructor, and the \<^verbatim>\<open>reduce\<close> calls over the child list.\<close>

definition metadata_step :: "slices \<Rightarrow> component \<Rightarrow> slices" where
  "metadata_step md controller =
     md(name controller \<mapsto>
          (if isBaseController controller then get (metadata controller)
           else default_descriptor))"

definition state_step :: "slices \<Rightarrow> component \<Rightarrow> slices" where
  "state_step st controller =
     (if has (state controller) then st(name controller \<mapsto> get (state controller))
      else st)"

definition reduce_metadata :: "component list \<Rightarrow> slices" where
  "reduce_metadata controllers = foldl metadata_step Map.empty controllers"

definition reduce_state :: "component list \<Rightarrow> slices" where
  "reduce_state controllers = foldl state_step Map.empty controllers"

text \<open>
  \<^verbatim>\<open>#updateChildController\<close>: \<open>None\<close> is a normal return, \<open>Some e\<close> the thrown error.
\<close>

definition updateChildController ::
  "composable_controller \<Rightarrow> component \<Rightarrow> trace \<Rightarrow> error option \<times> trace" where
  "updateChildController self component t =
     (let nm = name component in
      if isBaseController component \<or>
         (isBaseControllerV1 component \<and> isMessengerConsumer component)
      then (None, t @ [BusSubscribe (this_messagingSystem self) (nm @ '':stateChange'')
                         (ReplaceSlice nm)])
      else if isBaseControllerV1 component
      then (None, t @ [ChildSubscribe (ref component) (ReplaceSlice nm)])
      else if \<not> isMessengerConsumer component
      then (Some ValidationError, t)
      else (None, t))"

text \<open>\<^verbatim>\<open>controllers.forEach(...)\<close>: a thrown error ends the loop.\<close>

fun forEach_updateChildController ::
  "composable_controller \<Rightarrow> component list \<Rightarrow> trace \<Rightarrow> error option \<times> trace" where
  "forEach_updateChildController self [] t = (None, t)"
| "forEach_updateChildController self (controller # rest) t =
     (case updateChildController self controller t of
        (Some e, t') \<Rightarrow> (Some e, t')
      | (None, t') \<Rightarrow> forEach_updateChildController self rest t')"

text \<open>
  The constructor. An absent messenger is \<open>None\<close>. The result is the thrown error or the
  constructed controller, together with the trace of what was done.
\<close>

definition construct ::
  "component list \<Rightarrow> messenger option \<Rightarrow> trace \<Rightarrow> (error + composable_controller) \<times> trace" where
  "construct controllers messenger t =
     (case messenger of
        None \<Rightarrow> (Inl ConfigurationError, t)
      | Some m \<Rightarrow>
          (case BaseController_init controllerName (reduce_metadata controllers)
                  (reduce_state controllers) m t of
             (self, t1) \<Rightarrow>
               (case forEach_updateChildController self controllers t1 of
                  (Some e, t2) \<Rightarrow> (Inl e, t2)
                | (None, t2) \<Rightarrow> (Inr self, t2))))"

section \<open>Derived notions and example components\<close>

text \<open>
  A component that \<^verbatim>\<open>#updateChildController\<close> does not reject: it passes one of the
  three guards, so the \<^verbatim>\<open>throw\<close> branch is not reached.
\<close>

definition accepted :: "component \<Rightarrow> bool" where
  "accepted c = (isBaseController c \<or> isBaseControllerV1 c \<or> isMessengerConsumer c)"

text \<open>
  What \<^verbatim>\<open>#updateChildController\<close> appends to the trace for one component.
\<close>

definition registrations :: "composable_controller \<Rightarrow> component \<Rightarrow> trace" where
  "registrations self c = snd (updateChildController self c [])"

text \<open>
  Four components: a \<^verbatim>\<open>BaseController\<close> instance, a \<^verbatim>\<open>BaseControllerV1\<close> instance
  without messaging system, an object with a name and a messaging system only, and an
  object with a name only.
\<close>

definition exampleModern :: component where
  "exampleModern =
     \<lparr>ref = 1, cls = ExtendsBaseController, name = ''A'', config = None,
      defaultConfig = None, state = Some (JObj [(''x'', JNum 1)]), defaultState = None,
      disabled = None, subscribe = None, metadata = Some (JObj []),
      messagingSystem = Some (JObj [])\<rparr>"

definition exampleLegacy :: component where
  "exampleLegacy =
     \<lparr>ref = 2, cls = ExtendsBaseControllerV1, name = ''B'', config = Some (JObj []),
      defaultConfig = Some (JObj []), state = Some (JObj [(''y'', JNum 2)]),
      defaultState = Some (JObj []), disabled = Some (JBool False),
      subscribe = Some (JFun 0), metadata = None, messagingSystem = None\<rparr>"

definition exampleConsumer :: component where
  "exampleConsumer =
     \<lparr>ref = 3, cls = OtherClass, name = ''C'', config = None, defaultConfig = None,
      state = None, defaultState = None, disabled = None, subscribe = None,
      metadata = None, messagingSystem = Some (JObj [])\<rparr>"

definition exampleStranger :: component where
  "exampleStranger =
     \<lparr>ref = 4, cls = OtherClass, name = ''D'', config = None, defaultConfig = None,
      state = None, defaultState = None, disabled = None, subscribe = None,
      metadata = None, messagingSystem = None\<rparr>"

section \<open>Auxiliary facts\<close>

lemmas guard_defs =
  isBaseController_def isBaseControllerV1_def isMessengerConsumer_def has_def get_def

lemmas example_defs =
  exampleModern_def exampleLegacy_def exampleConsumer_def exampleStranger_def

subsection \<open>The two reducers\<close>

text \<open>
  The entry of a name after the \<^verbatim>\<open>reduce\<close> calls is decided by the last component of that
  name (for the state: the last one that has a \<^verbatim>\<open>state\<close> property).
\<close>

lemma reduce_metadata_lookup:
  "reduce_metadata cs n =
     (if filter (\<lambda>c. name c = n) cs = [] then None
      else Some (let c = last (filter (\<lambda>c. name c = n) cs)
                 in if isBaseController c then get (metadata c) else default_descriptor))"
  unfolding reduce_metadata_def
  by (induction cs rule: rev_induct) (simp_all add: metadata_step_def)

lemma reduce_state_lookup:
  "reduce_state cs n =
     (if filter (\<lambda>c. name c = n \<and> has (state c)) cs = [] then None
      else state (last (filter (\<lambda>c. name c = n \<and> has (state c)) cs)))"
  unfolding reduce_state_def
  by (induction cs rule: rev_induct) (auto simp: state_step_def has_def get_def)

lemma reduce_state_stateless:
  "\<not> has (state c) \<Longrightarrow> reduce_state (pre @ c # post) = reduce_state (pre @ post)"
  by (simp add: reduce_state_def state_step_def)

lemma filter_name_distinct:
  "distinct (map name cs) \<Longrightarrow> c \<in> set cs \<Longrightarrow> filter (\<lambda>d. name d = name c) cs = [c]"
proof (induction cs)
  case Nil
  then show ?case by simp
next
  case (Cons a cs)
  show ?case
  proof (cases "a = c")
    case True
    have "\<forall>d\<in>set cs. name d \<noteq> name c"
      using Cons.prems(1) True by (auto simp: image_iff)
    then have "filter (\<lambda>d. name d = name c) cs = []"
      by (simp add: filter_empty_conv)
    then show ?thesis using True by simp
  next
    case False
    then have "c \<in> set cs" using Cons.prems(2) by simp
    moreover from this have "name a \<noteq> name c" using Cons.prems(1) by (auto simp: image_iff)
    ultimately show ?thesis using Cons by simp
  qed
qed

subsection \<open>One component\<close>

lemma updateChildController_trace:
  "snd (updateChildController self c t) = t @ snd (updateChildController self c [])"
  by (simp add: updateChildController_def Let_def)

lemma updateChildController_error:
  "fst (updateChildController self c t) = (if accepted c then None else Some ValidationError)"
  by (auto simp add: updateChildController_def accepted_def Let_def)

lemma updateChildController_rejected:
  "\<not> accepted c \<Longrightarrow> updateChildController self c t = (Some ValidationError, t)"
  by (auto simp add: updateChildController_def accepted_def Let_def)

lemma registrations_messenger:
  "this_messagingSystem self = this_messagingSystem self' \<Longrightarrow>
   registrations self c = registrations self' c"
  by (simp add: registrations_def updateChildController_def Let_def)

lemma registrations_consumer:
  "isMessengerConsumer c \<Longrightarrow> \<not> isBaseController c \<Longrightarrow> \<not> isBaseControllerV1 c \<Longrightarrow>
   registrations self c = []"
  by (simp add: registrations_def updateChildController_def Let_def)

subsection \<open>The loop and the constructor\<close>

lemma forEach_accepted:
  "\<forall>c\<in>set cs. accepted c \<Longrightarrow> fst (forEach_updateChildController self cs t) = None"
proof (induction cs arbitrary: t)
  case Nil
  then show ?case by simp
next
  case (Cons c cs)
  have "fst (updateChildController self c t) = None"
    using Cons.prems by (simp add: updateChildController_error)
  then show ?case using Cons
    by (cases "updateChildController self c t") (auto)
qed

lemma forEach_append:
  "fst (forEach_updateChildController self pre t) = None \<Longrightarrow>
   forEach_updateChildController self (pre @ post) t =
     forEach_updateChildController self post (snd (forEach_updateChildController self pre t))"
proof (induction pre arbitrary: t)
  case Nil
  then show ?case by simp
next
  case (Cons c cs)
  then show ?case
    by (cases "updateChildController self c t") (auto split: option.splits)
qed

lemma forEach_error:
  "fst (forEach_updateChildController self cs t) = Some e \<Longrightarrow>
   e = ValidationError \<and> (\<exists>c\<in>set cs. \<not> accepted c)"
proof (induction cs arbitrary: t)
  case Nil
  then show ?case by simp
next
  case (Cons c cs)
  show ?case
  proof (cases "accepted c")
    case True
    then have "fst (updateChildController self c t) = None"
      by (simp add: updateChildController_error)
    then show ?thesis using Cons
      by (cases "updateChildController self c t") auto
  next
    case False
    then show ?thesis using Cons.prems
      by (simp add: updateChildController_rejected)
  qed
qed

lemma forEach_trace:
  "\<forall>c\<in>set cs. accepted c \<Longrightarrow>
   forEach_updateChildController self cs t = (None, t @ concat (map (registrations self) cs))"
proof (induction cs arbitrary: t)
  case Nil
  then show ?case by simp
next
  case (Cons c cs)
  have "updateChildController self c t = (None, t @ registrations self c)"
    using Cons.prems updateChildController_error [of self c t]
      updateChildController_trace [of self c t]
    by (simp add: registrations_def prod_eq_iff)
  then show ?case using Cons by simp
qed

lemma construct_accepted:
  assumes "\<forall>c\<in>set cs. accepted c"
  shows "construct cs (Some m) t =
     (Inr \<lparr>this_name = controllerName, this_messagingSystem = m,
           this_state = reduce_state cs, this_metadata = reduce_metadata cs\<rparr>,
      t @ RegisterController m controllerName #
        concat (map (registrations \<lparr>this_name = controllerName, this_messagingSystem = m,
           this_state = reduce_state cs, this_metadata = reduce_metadata cs\<rparr>) cs))"
  using assms by (simp add: construct_def BaseController_init_def forEach_trace)

lemma construct_rejected:
  assumes "\<forall>p\<in>set pre. accepted p" and "\<not> accepted c"
  shows "construct (pre @ c # post) (Some m) t =
     (Inl ValidationError,
      t @ RegisterController m controllerName #
        concat (map (registrations \<lparr>this_name = controllerName, this_messagingSystem = m,
           this_state = Map.empty, this_metadata = Map.empty\<rparr>) pre))"
proof -
  let ?self = "\<lparr>this_name = controllerName, this_messagingSystem = m,
     this_state = reduce_state (pre @ c # post),
     this_metadata = reduce_metadata (pre @ c # post)\<rparr>"
  let ?t1 = "t @ [RegisterController m controllerName]"
  have pre: "forEach_updateChildController ?self pre ?t1 =
               (None, ?t1 @ concat (map (registrations ?self) pre))"
    using assms(1) by (rule forEach_trace)
  have "forEach_updateChildController ?self (pre @ c # post) ?t1 =
          forEach_updateChildController ?self (c # post) (?t1 @ concat (map (registrations ?self) pre))"
    using forEach_append [of ?self pre ?t1 "c # post"] pre by simp
  also have "\<dots> = (Some ValidationError, ?t1 @ concat (map (registrations ?self) pre))"
    using assms(2) by (simp add: updateChildController_rejected)
  finally have "forEach_updateChildController ?self (pre @ c # post) ?t1 =
     (Some ValidationError, ?t1 @ concat (map (registrations ?self) pre))" .
  moreover have "map (registrations ?self) pre =
     map (registrations \<lparr>this_name = controllerName, this_messagingSystem = m,
           this_state = Map.empty, this_metadata = Map.empty\<rparr>) pre"
    by (rule map_cong) (simp_all add: registrations_messenger)
  ultimately show ?thesis
    by (simp add: construct_def BaseController_init_def)
qed

subsection \<open>The disabled flag\<close>

lemma disabled_guards:
  "isBaseController (c\<lparr>disabled := d\<rparr>) = isBaseController c"
  "isMessengerConsumer (c\<lparr>disabled := d\<rparr>) = isMessengerConsumer c"
  "isBaseControllerV1 (c\<lparr>disabled := Some (JBool a)\<rparr>) =
     isBaseControllerV1 (c\<lparr>disabled := Some (JBool b)\<rparr>)"
  by (simp_all add: guard_defs)

lemma disabled_steps:
  "metadata_step md (c\<lparr>disabled := d\<rparr>) = metadata_step md c"
  "state_step st (c\<lparr>disabled := d\<rparr>) = state_step st c"
  "updateChildController self (c\<lparr>disabled := Some (JBool a)\<rparr>) t =
     updateChildController self (c\<lparr>disabled := Some (JBool b)\<rparr>) t"
  using disabled_guards(3) [where c = c and a = a and b = b]
  by (simp_all add: metadata_step_def state_step_def updateChildController_def Let_def
      disabled_guards(1,2))

lemma forEach_disabled:
  "forEach_updateChildController self (pre @ c\<lparr>disabled := Some (JBool a)\<rparr> # post) t =
   forEach_updateChildController self (pre @ c\<lparr>disabled := Some (JBool b)\<rparr> # post) t"
proof (induction pre arbitrary: t)
  case Nil
  show ?case using disabled_steps(3) [where self = self and c = c and a = a and b = b and t = t] by simp
next
  case (Cons p pre)
  then show ?case by (simp split: prod.splits option.splits)
qed

section \<open>Composite metadata\<close>

text \<open>
  C1, as stated, fails. With a \<^verbatim>\<open>BaseController\<close> child named \<open>A\<close> followed by a
  \<^verbatim>\<open>BaseControllerV1\<close> child of the same name (both accepted), construction succeeds and
  the entry under \<open>A\<close> is not the metadata of the first child, although that child is a
  \<^verbatim>\<open>BaseController\<close>; and the entry written for the second child is not the object
  \<^verbatim>\<open>{persisted: true, anonymous: true}\<close>: the source writes the key \<^verbatim>\<open>persist\<close>.
\<close>

theorem composite_metadata_counterexample:
  "accepted exampleModern \<and> accepted (exampleLegacy\<lparr>name := ''A''\<rparr>) \<and>
   isBaseController exampleModern \<and> name exampleModern = ''A'' \<and>
   \<not> isBaseController (exampleLegacy\<lparr>name := ''A''\<rparr>) \<and>
   \<not> isl (fst (construct [exampleModern, exampleLegacy\<lparr>name := ''A''\<rparr>] (Some 0) [])) \<and>
   this_metadata (projr (fst (construct [exampleModern, exampleLegacy\<lparr>name := ''A''\<rparr>] (Some 0) []))) ''A''
     \<noteq> metadata exampleModern \<and>
   this_metadata (projr (fst (construct [exampleModern, exampleLegacy\<lparr>name := ''A''\<rparr>] (Some 0) []))) ''A''
     \<noteq> Some (JObj [(''persisted'', JBool True), (''anonymous'', JBool True)])"
  by (simp add: construct_def BaseController_init_def updateChildController_def Let_def
      reduce_metadata_def reduce_state_def metadata_step_def state_step_def
      default_descriptor_def accepted_def guard_defs example_defs)

text \<open>
  C1, amended: for every child list of accepted components (and a messenger),
  construction succeeds and the key set of the composite metadata is the set of child
  names; for each child that is the last one of its name in the list, the entry under
  its name is its own metadata if it is a \<^verbatim>\<open>BaseController\<close>, and exactly the default
  descriptor \<^verbatim>\<open>{persist: true, anonymous: true}\<close> otherwise.
\<close>

theorem composite_metadata_last_child:
  assumes "\<forall>c\<in>set controllers. accepted c"
  shows "\<exists>self t'. construct controllers (Some m) t = (Inr self, t') \<and>
           dom (this_metadata self) = name ` set controllers \<and>
           (\<forall>pre c post. controllers = pre @ c # post \<and> name c \<notin> name ` set post \<longrightarrow>
              (isBaseController c \<longrightarrow> this_metadata self (name c) = metadata c) \<and>
              (\<not> isBaseController c \<longrightarrow>
                 this_metadata self (name c) = Some default_descriptor))"
proof -
  have dom: "dom (reduce_metadata controllers) = name ` set controllers"
    by (auto simp: reduce_metadata_lookup dom_def filter_empty_conv split: if_splits)
  have last: "reduce_metadata (pre @ c # post) (name c) =
      Some (if isBaseController c then get (metadata c) else default_descriptor)"
    if "name c \<notin> name ` set post" for pre c post
  proof -
    have "filter (\<lambda>d. name d = name c) post = []"
      using that by (auto simp: filter_empty_conv image_iff)
    then show ?thesis by (simp add: reduce_metadata_lookup)
  qed
  have verbatim: "Some (get (metadata c)) = metadata c" if "isBaseController c" for c
    using that by (auto simp: isBaseController_def has_def get_def)
  show ?thesis
    using construct_accepted [OF assms, of m t] dom last verbatim by auto
qed

text \<open>
  The amended C1 at three children with distinct names.
\<close>

theorem composite_metadata_last_child_witness:
  "\<exists>self t'. construct [exampleModern, exampleLegacy, exampleConsumer] (Some 0) [] = (Inr self, t') \<and>
     dom (this_metadata self) = {''A'', ''B'', ''C''} \<and>
     this_metadata self ''A'' = Some (JObj []) \<and>
     this_metadata self ''B'' = Some (JObj [(''persist'', JBool True), (''anonymous'', JBool True)]) \<and>
     this_metadata self ''C'' = Some (JObj [(''persist'', JBool True), (''anonymous'', JBool True)])"
proof -
  have acc: "\<forall>c\<in>set [exampleModern, exampleLegacy, exampleConsumer]. accepted c"
    by (simp add: accepted_def guard_defs example_defs)
  obtain self t' where c: "construct [exampleModern, exampleLegacy, exampleConsumer] (Some 0) [] = (Inr self, t')"
    and d: "dom (this_metadata self) = name ` set [exampleModern, exampleLegacy, exampleConsumer]"
    and l: "\<forall>pre c post. [exampleModern, exampleLegacy, exampleConsumer] = pre @ c # post \<and> name c \<notin> name ` set post \<longrightarrow>
              (isBaseController c \<longrightarrow> this_metadata self (name c) = metadata c) \<and>
              (\<not> isBaseController c \<longrightarrow>
                 this_metadata self (name c) = Some default_descriptor)"
    using composite_metadata_last_child [OF acc, of 0 "[]"] by blast
  have a: "this_metadata self ''A'' = Some (JObj [])"
    using l [rule_format, of "[]" exampleModern "[exampleLegacy, exampleConsumer]"]
    by (simp add: guard_defs example_defs)
  have b: "this_metadata self ''B'' = Some default_descriptor"
    using l [rule_format, of "[exampleModern]" exampleLegacy "[exampleConsumer]"]
    by (simp add: guard_defs example_defs)
  have e: "this_metadata self ''C'' = Some default_descriptor"
    using l [rule_format, of "[exampleModern, exampleLegacy]" exampleConsumer "[]"]
    by (simp add: guard_defs example_defs)
  have d': "dom (this_metadata self) = {''A'', ''B'', ''C''}"
    using d by (simp add: example_defs)
  show ?thesis using c a b e d' by (simp add: default_descriptor_def)
qed

section \<open>Components with a messaging system only\<close>

text \<open>
  C2, as stated, fails: a list holding one component that has a name and a messaging
  system and passes neither controller guard is constructed without error, and nothing is
  subscribed for it.
\<close>

theorem messenger_only_component_counterexample:
  "isMessengerConsumer exampleConsumer \<and> \<not> isBaseController exampleConsumer \<and>
   \<not> isBaseControllerV1 exampleConsumer \<and>
   \<not> isl (fst (construct [exampleConsumer] (Some 0) [])) \<and>
   snd (construct [exampleConsumer] (Some 0) []) = [RegisterController 0 controllerName]"
  by (simp add: construct_def BaseController_init_def updateChildController_def Let_def
      guard_defs example_defs)

text \<open>
  C2, amended: with a messenger, construction fails with the validation error exactly
  when some child passes none of the three guards, that is, it is neither a
  \<^verbatim>\<open>BaseController\<close> nor a \<^verbatim>\<open>BaseControllerV1\<close> and has no messaging system either. A
  component with a messaging system only does not make construction fail.
\<close>

theorem construct_validation_error_iff:
  "(fst (construct controllers (Some m) t) = Inl ValidationError) =
   (\<exists>c\<in>set controllers.
      \<not> isBaseController c \<and> \<not> isBaseControllerV1 c \<and> \<not> isMessengerConsumer c)"
proof (cases "\<forall>c\<in>set controllers. accepted c")
  case True
  then show ?thesis
    using construct_accepted [OF True, of m t] by (auto simp: accepted_def)
next
  case False
  then have "\<exists>c\<in>set controllers. \<not> accepted c" by blast
  then obtain pre c post where split: "controllers = pre @ c # post" "\<not> accepted c"
    "\<forall>p\<in>set pre. \<not> \<not> accepted p"
    using split_list_first_prop [of controllers "\<lambda>c. \<not> accepted c"] by blast
  have "fst (construct controllers (Some m) t) = Inl ValidationError"
    using construct_rejected [where pre = pre and c = c and post = post and m = m and t = t] split by simp
  moreover have "\<exists>c\<in>set controllers.
      \<not> isBaseController c \<and> \<not> isBaseControllerV1 c \<and> \<not> isMessengerConsumer c"
    using split by (auto simp: accepted_def)
  ultimately show ?thesis by simp
qed

text \<open>
  The amended C2 at two lists: one with a component that has a name only, one with a
  component that has a name and a messaging system.
\<close>

theorem construct_validation_error_iff_witness:
  "fst (construct [exampleModern, exampleStranger, exampleLegacy] (Some 0) []) = Inl ValidationError \<and>
   fst (construct [exampleModern, exampleConsumer, exampleLegacy] (Some 0) []) \<noteq> Inl ValidationError"
  using construct_validation_error_iff [of "[exampleModern, exampleStranger, exampleLegacy]" 0 "[]"]
    construct_validation_error_iff [of "[exampleModern, exampleConsumer, exampleLegacy]" 0 "[]"]
  by (simp add: guard_defs example_defs)

section \<open>Composite state\<close>

text \<open>
  C3: for every list of accepted components with pairwise distinct names (and a
  messenger), construction succeeds, the key set of the composite state is the set of
  names of the children that have a \<^verbatim>\<open>state\<close> property, and the entry under each child's
  name is that child's \<^verbatim>\<open>state\<close> property: its value when present, no entry when absent.
\<close>

theorem composite_state_unique_names:
  assumes "\<forall>c\<in>set controllers. accepted c" and "distinct (map name controllers)"
  shows "\<exists>self t'. construct controllers (Some m) t = (Inr self, t') \<and>
           dom (this_state self) = name ` set (filter (\<lambda>c. has (state c)) controllers) \<and>
           (\<forall>c\<in>set controllers. this_state self (name c) = state c)"
proof -
  have entry: "reduce_state controllers (name c) = state c" if "c \<in> set controllers" for c
  proof -
    have "filter (\<lambda>d. name d = name c \<and> has (state d)) controllers =
            filter (\<lambda>d. has (state d)) (filter (\<lambda>d. name d = name c) controllers)"
      by (simp add: conj_commute)
    also have "\<dots> = (if has (state c) then [c] else [])"
      using filter_name_distinct [OF assms(2) that] by simp
    finally show ?thesis
      by (simp add: reduce_state_lookup has_def)
  qed
  have "dom (reduce_state controllers) \<subseteq> name ` set controllers"
    by (auto simp: reduce_state_lookup dom_def filter_empty_conv split: if_splits)
  then have dom: "dom (reduce_state controllers) = name ` set (filter (\<lambda>c. has (state c)) controllers)"
    using entry by (force simp: dom_def has_def image_iff subset_iff)
  show ?thesis
    using construct_accepted [OF assms(1), of m t] dom entry by simp
qed

text \<open>
  C3 at three children, the third without \<^verbatim>\<open>state\<close>.
\<close>

theorem composite_state_unique_names_witness:
  "\<exists>self t'. construct [exampleModern, exampleLegacy, exampleConsumer] (Some 0) [] = (Inr self, t') \<and>
     dom (this_state self) = {''A'', ''B''} \<and>
     this_state self ''A'' = Some (JObj [(''x'', JNum 1)]) \<and>
     this_state self ''B'' = Some (JObj [(''y'', JNum 2)]) \<and>
     this_state self ''C'' = None"
proof -
  have acc: "\<forall>c\<in>set [exampleModern, exampleLegacy, exampleConsumer]. accepted c"
    by (simp add: accepted_def guard_defs example_defs)
  have dist: "distinct (map name [exampleModern, exampleLegacy, exampleConsumer])"
    by (simp add: example_defs)
  show ?thesis
    using composite_state_unique_names [OF acc dist, of 0 "[]"]
    by (simp add: has_def example_defs)
qed

section \<open>The registered listeners\<close>

text \<open>
  Which subscription \<^verbatim>\<open>#updateChildController\<close> makes: a \<^verbatim>\<open>BaseController\<close>, or a
  \<^verbatim>\<open>BaseControllerV1\<close> with a messaging system, gets a subscription on the controller's
  messenger to the topic \<^verbatim>\<open><name>:stateChange\<close>; otherwise a \<^verbatim>\<open>BaseControllerV1\<close>
  without messaging system gets a call of its own \<^verbatim>\<open>subscribe\<close>, and such a child is
  never in the first case. The listener is the same closure in both cases.
\<close>

lemma updateChildController_classification:
  "(isBaseController c \<or> (isBaseControllerV1 c \<and> isMessengerConsumer c) \<longrightarrow>
      updateChildController self c t =
        (None, t @ [BusSubscribe (this_messagingSystem self) (name c @ '':stateChange'')
                      (ReplaceSlice (name c))])) \<and>
   (\<not> (isBaseController c \<or> (isBaseControllerV1 c \<and> isMessengerConsumer c)) \<and>
    isBaseControllerV1 c \<and> \<not> has (messagingSystem c) \<longrightarrow>
      updateChildController self c t =
        (None, t @ [ChildSubscribe (ref c) (ReplaceSlice (name c))])) \<and>
   (isBaseControllerV1 c \<and> \<not> has (messagingSystem c) \<longrightarrow>
      \<not> (isBaseController c \<or> (isBaseControllerV1 c \<and> isMessengerConsumer c)))"
  by (auto simp: updateChildController_def Let_def isBaseController_def
      isBaseControllerV1_def isMessengerConsumer_def)

text \<open>
  Under every name but \<^verbatim>\<open>__proto__\<close> the listener replaces the slice of that name by the
  new value, whole, keeps every other slice and publishes once. Under the name
  \<^verbatim>\<open>__proto__\<close> it never changes the state.
\<close>

lemma invoke_replaces_slice:
  "nm \<noteq> ''__proto__'' \<Longrightarrow>
   invoke (ReplaceSlice nm) v self t =
     (None, self\<lparr>this_state := (this_state self)(nm \<mapsto> v)\<rparr>,
      t @ [BusPublish (this_messagingSystem self) (this_name self @ '':stateChange'')
             ((this_state self)(nm \<mapsto> v))])"
  by (simp add: update_def Object_assign_def)

lemma invoke_proto_keeps_state:
  "this_state (fst (snd (invoke (ReplaceSlice ''__proto__'') v self t))) = this_state self"
  by (simp add: update_def Object_assign_def)

text \<open>
  C4 says that every registered listener, on every new state value, replaces the entry
  under its child's name by the new value and keeps the other entries. The code does not
  do so for a child named \<^verbatim>\<open>__proto__\<close>. Such a \<^verbatim>\<open>BaseControllerV1\<close> child is accepted, the
  state reducer enters its state \<^verbatim>\<open>{y: 2}\<close> under \<^verbatim>\<open>__proto__\<close>, and its listener is
  registered through its own \<^verbatim>\<open>subscribe\<close>; but running that listener with \<^verbatim>\<open>{y: 3}\<close>
  throws, leaves the controller as it was (the entry is still \<^verbatim>\<open>{y: 2}\<close>) and publishes
  nothing.
\<close>

theorem listener_proto_name_throws:
  "accepted (exampleLegacy\<lparr>name := ''__proto__''\<rparr>) \<and>
   \<not> isl (fst (construct [exampleLegacy\<lparr>name := ''__proto__''\<rparr>] (Some 0) [])) \<and>
   snd (construct [exampleLegacy\<lparr>name := ''__proto__''\<rparr>] (Some 0) []) =
     [RegisterController 0 controllerName, ChildSubscribe 2 (ReplaceSlice ''__proto__'')] \<and>
   this_state (projr (fst (construct [exampleLegacy\<lparr>name := ''__proto__''\<rparr>] (Some 0) [])))
       ''__proto__'' = Some (JObj [(''y'', JNum 2)]) \<and>
   invoke (ReplaceSlice ''__proto__'') (JObj [(''y'', JNum 3)])
       (projr (fst (construct [exampleLegacy\<lparr>name := ''__proto__''\<rparr>] (Some 0) [])))
       (snd (construct [exampleLegacy\<lparr>name := ''__proto__''\<rparr>] (Some 0) [])) =
     (Some DraftPrototypeChange,
      projr (fst (construct [exampleLegacy\<lparr>name := ''__proto__''\<rparr>] (Some 0) [])),
      snd (construct [exampleLegacy\<lparr>name := ''__proto__''\<rparr>] (Some 0) []))"
  by (simp add: construct_def BaseController_init_def updateChildController_def Let_def
      reduce_metadata_def reduce_state_def metadata_step_def state_step_def
      update_def Object_assign_def accepted_def guard_defs example_defs)

text \<open>
  C5 says that a \<^verbatim>\<open>BaseController\<close>, or a \<^verbatim>\<open>BaseControllerV1\<close> with a messaging system, is
  subscribed on the bus, that a \<^verbatim>\<open>BaseControllerV1\<close> without one is subscribed through its
  own \<^verbatim>\<open>subscribe\<close>, and that both listeners replace the slice of the child's name. The
  code classifies as said, but for children named \<^verbatim>\<open>__proto__\<close> neither listener replaces
  the slice: a \<^verbatim>\<open>BaseController\<close> of that name is subscribed on the bus, a
  \<^verbatim>\<open>BaseControllerV1\<close> of that name through its own \<^verbatim>\<open>subscribe\<close>, and the listener of
  both throws on the new state \<^verbatim>\<open>{x: 5}\<close>, leaving the slice \<^verbatim>\<open>{x: 1}\<close> in place and
  publishing nothing.
\<close>

theorem bridged_listeners_proto_name_throw:
  "updateChildController
       \<lparr>this_name = controllerName, this_messagingSystem = 7,
        this_state = [''__proto__'' \<mapsto> JObj [(''x'', JNum 1)]], this_metadata = Map.empty\<rparr>
       (exampleModern\<lparr>name := ''__proto__''\<rparr>) [] =
     (None, [BusSubscribe 7 ''__proto__:stateChange'' (ReplaceSlice ''__proto__'')]) \<and>
   updateChildController
       \<lparr>this_name = controllerName, this_messagingSystem = 7,
        this_state = [''__proto__'' \<mapsto> JObj [(''x'', JNum 1)]], this_metadata = Map.empty\<rparr>
       (exampleLegacy\<lparr>name := ''__proto__''\<rparr>) [] =
     (None, [ChildSubscribe 2 (ReplaceSlice ''__proto__'')]) \<and>
   invoke (ReplaceSlice ''__proto__'') (JObj [(''x'', JNum 5)])
       \<lparr>this_name = controllerName, this_messagingSystem = 7,
        this_state = [''__proto__'' \<mapsto> JObj [(''x'', JNum 1)]], this_metadata = Map.empty\<rparr>
       [] =
     (Some DraftPrototypeChange,
      \<lparr>this_name = controllerName, this_messagingSystem = 7,
       this_state = [''__proto__'' \<mapsto> JObj [(''x'', JNum 1)]], this_metadata = Map.empty\<rparr>,
      [])"
  by (simp add: updateChildController_def Let_def update_def Object_assign_def
      guard_defs example_defs)

section \<open>Construction without a messenger\<close>

text \<open>
  C6: for every child list, constructing with an absent messenger fails with the
  configuration error before any other work: no controller (hence no composite state or
  metadata) is built, and the trace is unchanged, so no subscription of any kind has been
  registered.
\<close>

theorem construct_without_messenger:
  "construct controllers None t = (Inl ConfigurationError, t)"
  by (simp add: construct_def)

section \<open>Construction with an invalid child\<close>

text \<open>
  C7: when the children before some position are all accepted and the child at that
  position is not, construction (with a messenger) fails with the validation error, and
  the trace is the one of a successful construction over the earlier children alone:
  every subscription made for them, on the bus or through their own \<^verbatim>\<open>subscribe\<close>, is
  still there.
\<close>

theorem construct_invalid_child_no_rollback:
  assumes "\<forall>p\<in>set pre. accepted p" and "\<not> accepted c"
  shows "construct (pre @ c # post) (Some m) t =
           (Inl ValidationError, snd (construct pre (Some m) t)) \<and>
         (\<exists>self. fst (construct pre (Some m) t) = Inr self) \<and>
         (\<forall>p\<in>set pre.
            (isBaseController p \<or> (isBaseControllerV1 p \<and> isMessengerConsumer p) \<longrightarrow>
               BusSubscribe m (name p @ '':stateChange'') (ReplaceSlice (name p))
                 \<in> set (snd (construct (pre @ c # post) (Some m) t))) \<and>
            (isBaseControllerV1 p \<and> \<not> isMessengerConsumer p \<longrightarrow>
               ChildSubscribe (ref p) (ReplaceSlice (name p))
                 \<in> set (snd (construct (pre @ c # post) (Some m) t))))"
proof -
  let ?self0 = "\<lparr>this_name = controllerName, this_messagingSystem = m,
           this_state = Map.empty, this_metadata = Map.empty\<rparr>"
  let ?selfp = "\<lparr>this_name = controllerName, this_messagingSystem = m,
           this_state = reduce_state pre, this_metadata = reduce_metadata pre\<rparr>"
  have same: "map (registrations ?selfp) pre = map (registrations ?self0) pre"
    by (rule map_cong) (simp_all add: registrations_messenger)
  have fail: "construct (pre @ c # post) (Some m) t =
     (Inl ValidationError,
      t @ RegisterController m controllerName # concat (map (registrations ?self0) pre))"
    using assms by (rule construct_rejected)
  have ok: "construct pre (Some m) t =
     (Inr ?selfp, t @ RegisterController m controllerName # concat (map (registrations ?selfp) pre))"
    using assms(1) by (rule construct_accepted)
  have bus: "BusSubscribe m (name p @ '':stateChange'') (ReplaceSlice (name p))
       \<in> set (registrations ?self0 p)"
    if "isBaseController p \<or> (isBaseControllerV1 p \<and> isMessengerConsumer p)" for p
    using that by (simp add: registrations_def updateChildController_def Let_def)
  have child: "ChildSubscribe (ref p) (ReplaceSlice (name p)) \<in> set (registrations ?self0 p)"
    if "isBaseControllerV1 p \<and> \<not> isMessengerConsumer p" for p
    using that
    by (auto simp: registrations_def updateChildController_def Let_def isBaseController_def
        isBaseControllerV1_def)
  show ?thesis
    using fail ok same bus child by auto
qed

text \<open>
  C7 at a list whose third child has a name only.
\<close>

theorem construct_invalid_child_no_rollback_witness:
  "construct [exampleModern, exampleLegacy, exampleStranger, exampleConsumer] (Some 0) [] =
     (Inl ValidationError,
      [RegisterController 0 controllerName,
       BusSubscribe 0 ''A:stateChange'' (ReplaceSlice ''A''),
       ChildSubscribe 2 (ReplaceSlice ''B'')])"
proof -
  have acc: "\<forall>p\<in>set [exampleModern, exampleLegacy]. accepted p"
    by (simp add: accepted_def guard_defs example_defs)
  have rej: "\<not> accepted exampleStranger"
    by (simp add: accepted_def guard_defs example_defs)
  have pre: "snd (construct [exampleModern, exampleLegacy] (Some 0) []) =
      [RegisterController 0 controllerName,
       BusSubscribe 0 ''A:stateChange'' (ReplaceSlice ''A''),
       ChildSubscribe 2 (ReplaceSlice ''B'')]"
    by (simp add: construct_def BaseController_init_def updateChildController_def Let_def
        guard_defs example_defs)
  show ?thesis
    using construct_invalid_child_no_rollback [OF acc rej, of "[exampleConsumer]" 0 "[]"] pre
    by simp
qed

section \<open>Duplicate names\<close>

text \<open>
  C8, as stated, fails for the state map. A \<^verbatim>\<open>BaseControllerV1\<close> child followed by a
  component of the same name that has a messaging system and no \<^verbatim>\<open>state\<close>: both are
  accepted, and the composite state under that name is the state of the first child, not
  the (absent) state of the last one.
\<close>

theorem duplicate_names_state_counterexample:
  "accepted (exampleLegacy\<lparr>name := ''C''\<rparr>) \<and> accepted exampleConsumer \<and>
   name (exampleLegacy\<lparr>name := ''C''\<rparr>) = name exampleConsumer \<and>
   \<not> isl (fst (construct [exampleLegacy\<lparr>name := ''C''\<rparr>, exampleConsumer] (Some 0) [])) \<and>
   this_state (projr (fst (construct [exampleLegacy\<lparr>name := ''C''\<rparr>, exampleConsumer] (Some 0) []))) ''C''
     = Some (JObj [(''y'', JNum 2)]) \<and>
   this_state (projr (fst (construct [exampleLegacy\<lparr>name := ''C''\<rparr>, exampleConsumer] (Some 0) []))) ''C''
     \<noteq> state exampleConsumer"
  by (simp add: construct_def BaseController_init_def updateChildController_def Let_def
      reduce_metadata_def reduce_state_def metadata_step_def state_step_def
      accepted_def guard_defs example_defs)

text \<open>
  C8, amended: for every list of accepted components in which two or more children have
  the name \<open>n\<close>, the metadata entry under \<open>n\<close> is the contribution of the last child named
  \<open>n\<close>, and the state entry under \<open>n\<close> is the state of the last child named \<open>n\<close> among
  those that have a \<^verbatim>\<open>state\<close> property (no entry when none has one).
\<close>

theorem duplicate_names_last_write_wins:
  assumes "\<forall>c\<in>set controllers. accepted c"
    and "2 \<le> length (filter (\<lambda>c. name c = n) controllers)"
  shows "\<exists>self t'. construct controllers (Some m) t = (Inr self, t') \<and>
           this_metadata self n =
             Some (if isBaseController (last (filter (\<lambda>c. name c = n) controllers))
                   then get (metadata (last (filter (\<lambda>c. name c = n) controllers)))
                   else default_descriptor) \<and>
           this_state self n =
             (if filter (\<lambda>c. name c = n \<and> has (state c)) controllers = [] then None
              else state (last (filter (\<lambda>c. name c = n \<and> has (state c)) controllers)))"
proof -
  have "filter (\<lambda>c. name c = n) controllers \<noteq> []"
    using assms(2) by auto
  then show ?thesis
    using construct_accepted [OF assms(1), of m t]
    by (simp add: reduce_metadata_lookup reduce_state_lookup Let_def)
qed

text \<open>
  The amended C8 at three children of one name, the last without \<^verbatim>\<open>state\<close>.
\<close>

theorem duplicate_names_last_write_wins_witness:
  "\<exists>self t'. construct [exampleModern, exampleLegacy\<lparr>name := ''A''\<rparr>, exampleConsumer\<lparr>name := ''A''\<rparr>]
       (Some 0) [] = (Inr self, t') \<and>
     this_metadata self ''A'' = Some default_descriptor \<and>
     this_state self ''A'' = Some (JObj [(''y'', JNum 2)])"
proof -
  have acc: "\<forall>c\<in>set [exampleModern, exampleLegacy\<lparr>name := ''A''\<rparr>, exampleConsumer\<lparr>name := ''A''\<rparr>]. accepted c"
    by (simp add: accepted_def guard_defs example_defs)
  have two: "2 \<le> length (filter (\<lambda>c. name c = ''A'')
      [exampleModern, exampleLegacy\<lparr>name := ''A''\<rparr>, exampleConsumer\<lparr>name := ''A''\<rparr>])"
    by (simp add: example_defs)
  show ?thesis
    using duplicate_names_last_write_wins [OF acc two, of 0 "[]"]
    by (simp add: guard_defs example_defs)
qed

section \<open>What a component with a messaging system only contributes\<close>

text \<open>
  C9, as stated, fails in its state part: a component with a name, a messaging system
  and a \<^verbatim>\<open>state\<close> property passes neither controller guard, and still its state is
  entered into the composite state.
\<close>

theorem messenger_consumer_state_counterexample:
  "isMessengerConsumer (exampleConsumer\<lparr>state := Some (JObj [(''x'', JNum 1)])\<rparr>) \<and>
   \<not> isBaseController (exampleConsumer\<lparr>state := Some (JObj [(''x'', JNum 1)])\<rparr>) \<and>
   \<not> isBaseControllerV1 (exampleConsumer\<lparr>state := Some (JObj [(''x'', JNum 1)])\<rparr>) \<and>
   \<not> isl (fst (construct [exampleConsumer\<lparr>state := Some (JObj [(''x'', JNum 1)])\<rparr>] (Some 0) [])) \<and>
   this_state (projr (fst (construct [exampleConsumer\<lparr>state := Some (JObj [(''x'', JNum 1)])\<rparr>] (Some 0) []))) ''C''
     = Some (JObj [(''x'', JNum 1)])"
  by (simp add: construct_def BaseController_init_def updateChildController_def Let_def
      reduce_metadata_def reduce_state_def metadata_step_def state_step_def
      guard_defs example_defs)

text \<open>
  C9, amended: a child that has a messaging system and passes neither controller guard,
  among accepted children, does not make construction fail and nothing is subscribed for
  it (the trace is the one of the list without it); it contributes a state entry exactly
  when it has a \<^verbatim>\<open>state\<close> property (without one the composite state is that of the list
  without it); and the metadata gains the default descriptor under its name when it is
  folded in, which is the final entry when no later child has the same name.
\<close>

theorem messenger_consumer_only_child:
  assumes "isMessengerConsumer c" and "\<not> isBaseController c" and "\<not> isBaseControllerV1 c"
    and "\<forall>p\<in>set pre \<union> set post. accepted p"
  shows "\<exists>self t'. construct (pre @ c # post) (Some m) t = (Inr self, t') \<and>
           t' = snd (construct (pre @ post) (Some m) t) \<and>
           (\<not> has (state c) \<longrightarrow> this_state self = reduce_state (pre @ post)) \<and>
           (has (state c) \<and> (\<forall>d\<in>set post. name d = name c \<longrightarrow> \<not> has (state d)) \<longrightarrow>
              this_state self (name c) = state c) \<and>
           reduce_metadata (pre @ [c]) = (reduce_metadata pre)(name c \<mapsto> default_descriptor) \<and>
           (name c \<notin> name ` set post \<longrightarrow>
              this_metadata self (name c) = Some default_descriptor)"
proof -
  let ?self = "\<lparr>this_name = controllerName, this_messagingSystem = m,
     this_state = reduce_state (pre @ c # post),
     this_metadata = reduce_metadata (pre @ c # post)\<rparr>"
  let ?self' = "\<lparr>this_name = controllerName, this_messagingSystem = m,
     this_state = reduce_state (pre @ post),
     this_metadata = reduce_metadata (pre @ post)\<rparr>"
  have acc: "\<forall>p\<in>set (pre @ c # post). accepted p"
    using assms by (auto simp: accepted_def)
  have acc': "\<forall>p\<in>set (pre @ post). accepted p"
    using assms(4) by auto
  have whole: "construct (pre @ c # post) (Some m) t =
     (Inr ?self, t @ RegisterController m controllerName #
        concat (map (registrations ?self) (pre @ c # post)))"
    using acc by (rule construct_accepted)
  have without: "construct (pre @ post) (Some m) t =
     (Inr ?self', t @ RegisterController m controllerName #
        concat (map (registrations ?self') (pre @ post)))"
    using acc' by (rule construct_accepted)
  have same: "registrations ?self = registrations ?self'"
    by (rule ext) (simp add: registrations_messenger)
  have trace: "concat (map (registrations ?self) (pre @ c # post)) =
      concat (map (registrations ?self') (pre @ post))"
    unfolding same using registrations_consumer [OF assms(1-3), of ?self']
    by simp
  have st: "reduce_state (pre @ c # post) (name c) = state c"
    if "has (state c)" "\<forall>d\<in>set post. name d = name c \<longrightarrow> \<not> has (state d)"
  proof -
    have "filter (\<lambda>d. name d = name c \<and> has (state d)) post = []"
      using that(2) by (auto simp: filter_empty_conv)
    then show ?thesis using that(1) by (simp add: reduce_state_lookup)
  qed
  have gain: "reduce_metadata (pre @ [c]) = (reduce_metadata pre)(name c \<mapsto> default_descriptor)"
    using assms(2) by (simp add: reduce_metadata_def metadata_step_def)
  have md: "reduce_metadata (pre @ c # post) (name c) = Some default_descriptor"
    if "name c \<notin> name ` set post"
  proof -
    have "filter (\<lambda>d. name d = name c) post = []"
      using that by (auto simp: filter_empty_conv image_iff)
    then show ?thesis using assms(2) by (simp add: reduce_metadata_lookup)
  qed
  show ?thesis
    using whole without trace st gain md reduce_state_stateless [of c pre post] by simp
qed

text \<open>
  The amended C9 at a component with a messaging system only between two controllers.
\<close>

theorem messenger_consumer_only_child_witness:
  "construct [exampleModern, exampleConsumer, exampleLegacy] (Some 0) [] =
     (Inr \<lparr>this_name = controllerName, this_messagingSystem = 0,
           this_state = [''A'' \<mapsto> JObj [(''x'', JNum 1)], ''B'' \<mapsto> JObj [(''y'', JNum 2)]],
           this_metadata = [''A'' \<mapsto> JObj [], ''C'' \<mapsto> default_descriptor,
                            ''B'' \<mapsto> default_descriptor]\<rparr>,
      [RegisterController 0 controllerName,
       BusSubscribe 0 ''A:stateChange'' (ReplaceSlice ''A''),
       ChildSubscribe 2 (ReplaceSlice ''B'')])"
proof -
  have c: "isMessengerConsumer exampleConsumer" "\<not> isBaseController exampleConsumer"
    "\<not> isBaseControllerV1 exampleConsumer"
    by (simp_all add: guard_defs example_defs)
  have acc: "\<forall>p\<in>set [exampleModern] \<union> set [exampleLegacy]. accepted p"
    by (simp add: accepted_def guard_defs example_defs)
  have without: "snd (construct ([exampleModern] @ [exampleLegacy]) (Some 0) []) =
      [RegisterController 0 controllerName,
       BusSubscribe 0 ''A:stateChange'' (ReplaceSlice ''A''),
       ChildSubscribe 2 (ReplaceSlice ''B'')]"
    by (simp add: construct_def BaseController_init_def updateChildController_def Let_def
        guard_defs example_defs)
  have st: "reduce_state ([exampleModern] @ [exampleLegacy]) =
      [''A'' \<mapsto> JObj [(''x'', JNum 1)], ''B'' \<mapsto> JObj [(''y'', JNum 2)]]"
    by (simp add: reduce_state_def state_step_def guard_defs example_defs)
  obtain self t' where r:
    "construct ([exampleModern] @ exampleConsumer # [exampleLegacy]) (Some 0) [] = (Inr self, t')"
    "t' = snd (construct ([exampleModern] @ [exampleLegacy]) (Some 0) [])"
    "\<not> has (state exampleConsumer) \<longrightarrow> this_state self = reduce_state ([exampleModern] @ [exampleLegacy])"
    using messenger_consumer_only_child [OF c acc, of 0 "[]"] by blast
  have nos: "\<not> has (state exampleConsumer)" by (simp add: guard_defs example_defs)
  have "fst (construct [exampleModern, exampleConsumer, exampleLegacy] (Some 0) []) = Inr self"
    using r(1) by simp
  then have self: "self = \<lparr>this_name = controllerName, this_messagingSystem = 0,
           this_state = reduce_state [exampleModern, exampleConsumer, exampleLegacy],
           this_metadata = reduce_metadata [exampleModern, exampleConsumer, exampleLegacy]\<rparr>"
    by (simp add: construct_def BaseController_init_def updateChildController_def Let_def
        guard_defs example_defs)
  have md: "reduce_metadata [exampleModern, exampleConsumer, exampleLegacy] =
      [''A'' \<mapsto> JObj [], ''C'' \<mapsto> default_descriptor, ''B'' \<mapsto> default_descriptor]"
    by (simp add: reduce_metadata_def metadata_step_def guard_defs example_defs)
  show ?thesis
    using r nos st without self md by simp
qed

section \<open>The disabled flag\<close>

text \<open>
  C10: replacing the boolean \<^verbatim>\<open>disabled\<close> flag of a child by the other boolean changes
  nothing: the constructor returns the same result (controller or error) with the same
  trace, so the same composite state, metadata and subscriptions, and
  \<^verbatim>\<open>#updateChildController\<close> registers the same listener. The flag is only read by the
  guard \<^verbatim>\<open>isBaseControllerV1\<close>, which asks for a boolean and does not look at its value.
\<close>

theorem disabled_flag_irrelevant:
  "construct (pre @ c\<lparr>disabled := Some (JBool a)\<rparr> # post) messenger t =
     construct (pre @ c\<lparr>disabled := Some (JBool b)\<rparr> # post) messenger t \<and>
   updateChildController self (c\<lparr>disabled := Some (JBool a)\<rparr>) t =
     updateChildController self (c\<lparr>disabled := Some (JBool b)\<rparr>) t \<and>
   isBaseControllerV1 (c\<lparr>disabled := Some (JBool a)\<rparr>) =
     isBaseControllerV1 (c\<lparr>disabled := Some (JBool b)\<rparr>) \<and>
   (isBaseControllerV1 c \<longrightarrow> (\<exists>flag. disabled c = Some (JBool flag)))"
proof -
  have md: "reduce_metadata (pre @ c\<lparr>disabled := Some (JBool a)\<rparr> # post) =
            reduce_metadata (pre @ c\<lparr>disabled := Some (JBool b)\<rparr> # post)"
    by (simp add: reduce_metadata_def disabled_steps(1))
  have st: "reduce_state (pre @ c\<lparr>disabled := Some (JBool a)\<rparr> # post) =
            reduce_state (pre @ c\<lparr>disabled := Some (JBool b)\<rparr> # post)"
    by (simp add: reduce_state_def disabled_steps(2))
  have "construct (pre @ c\<lparr>disabled := Some (JBool a)\<rparr> # post) messenger t =
     construct (pre @ c\<lparr>disabled := Some (JBool b)\<rparr> # post) messenger t"
    unfolding construct_def md st
    using forEach_disabled [where pre = pre and c = c and a = a and post = post and b = b]
    by (simp split: option.splits prod.splits)
  moreover have "\<exists>flag. disabled c = Some (JBool flag)" if "isBaseControllerV1 c"
  proof -
    from that have h: "has (disabled c)" and ty: "typeof (get (disabled c)) = ''boolean''"
      by (simp_all add: isBaseControllerV1_def)
    from h obtain v where v: "disabled c = Some v"
      by (auto simp: has_def)
    with ty have "typeof v = ''boolean''"
      by (simp add: get_def)
    then obtain flag where "v = JBool flag"
      by (cases v) simp_all
    with v show ?thesis by simp
  qed
  ultimately show ?thesis
    using disabled_steps(3) [where self = self and c = c and a = a and b = b and t = t]
      disabled_guards(3) [where c = c and a = a and b = b] by blast
qed

text \<open>
  C10 at the \<^verbatim>\<open>BaseControllerV1\<close> example, disabled and not.
\<close>

theorem disabled_flag_irrelevant_witness:
  "construct [exampleModern, exampleLegacy\<lparr>disabled := Some (JBool True)\<rparr>] (Some 0) [] =
     construct [exampleModern, exampleLegacy] (Some 0) [] \<and>
   (\<exists>flag. disabled exampleLegacy = Some (JBool flag))"
proof -
  have v1: "isBaseControllerV1 exampleLegacy"
    by (simp add: guard_defs example_defs)
  have same: "exampleLegacy\<lparr>disabled := Some (JBool False)\<rparr> = exampleLegacy"
    by (simp add: example_defs)
  show ?thesis
    using disabled_flag_irrelevant [where pre = "[exampleModern]" and c = exampleLegacy
        and a = True and b = False and post = "[]" and messenger = "Some 0" and t = "[]"]
      v1 same by simp
qed

end
